theory Spec2Isabelle
  imports Main "HOL-Library.Char_ord" "HOL-Library.List_Lexorder" "HOL-Library.Product_Lexorder"
    "HOL-Library.AList"
begin

unbundle bit_operations_syntax

section \<open>Filesystem model\<close>

text \<open>
  The tree renderer reads a directory as a tree of entries.  An entry has a name, a kind
  (file or directory) and its permission bits (\<^verbatim>\<open>st_mode & 0o7777\<close>, which the renderer
  never reads); a directory has its children in the order in which the operating system
  lists them.  The permission auditor has a view of its own, given with it, which also
  has symbolic links.

  Python strings are modelled as \<^typ>\<open>string\<close>, read as UTF-8 bytes: comparing byte
  sequences lexicographically (the order of \<^verbatim>\<open>List_Lexorder\<close> over that of
  \<^verbatim>\<open>Char_ord\<close>) orders them as Python orders strings by code point.
  Octal literals of the source are written in decimal: \<open>0o777 = 511\<close>, \<open>0o755 = 493\<close>,
  \<open>0o700 = 448\<close>, \<open>0o644 = 420\<close>, \<open>0o7777 = 4095\<close>.
\<close>

datatype entry =
    is_file: File (name: string) (mode: int)
  | is_dir: Dir (name: string) (mode: int) "entry list"

datatype error = PermissionError string | NotADirectoryError

subsection \<open>Standard-library path functions used by the source\<close>

text \<open>
  \<^verbatim>\<open>str.rfind\<close> for a single character, \<^verbatim>\<open>Path.suffix\<close> and \<^verbatim>\<open>Path.stem\<close> as CPython's
  \<^verbatim>\<open>pathlib\<close> defines them (up to version 3.12: the suffix starts at the last dot of the
  name when that dot is neither the first nor the last character), \<^verbatim>\<open>str.startswith\<close>,
  \<^verbatim>\<open>posixpath.join\<close> for two components, and \<^verbatim>\<open>(directory / name).exists()\<close>, where
  \<open>cs\<close> are the children of the directory.
\<close>

fun rfind :: "char \<Rightarrow> string \<Rightarrow> nat option" where
  "rfind c [] = None"
| "rfind c (x # xs) =
     (case rfind c xs of
        Some i \<Rightarrow> Some (Suc i)
      | None \<Rightarrow> if x = c then Some 0 else None)"

definition path_suffix :: "string \<Rightarrow> string" where
  "path_suffix nm =
     (case rfind CHR ''.'' nm of
        Some i \<Rightarrow> if 0 < i \<and> i < length nm - 1 then drop i nm else ''''
      | None \<Rightarrow> '''')"

definition path_stem :: "string \<Rightarrow> string" where
  "path_stem nm =
     (case rfind CHR ''.'' nm of
        Some i \<Rightarrow> if 0 < i \<and> i < length nm - 1 then take i nm else nm
      | None \<Rightarrow> nm)"

definition startswith :: "string \<Rightarrow> string \<Rightarrow> bool" where
  "startswith s p = (take (length p) s = p)"

definition os_path_join :: "string \<Rightarrow> string \<Rightarrow> string" where
  "os_path_join a b =
     (if startswith b ''/'' then b
      else if a = '''' \<or> last a = CHR ''/'' then a @ b
      else a @ ''/'' @ b)"

definition path_exists :: "entry list \<Rightarrow> string \<Rightarrow> bool" where
  "path_exists cs nm = (nm \<in> name ` set cs)"

section \<open>Permission codec (\<^verbatim>\<open>permissions.py\<close>)\<close>

text \<open>
  Python integers are unbounded, so permission values are \<^typ>\<open>int\<close>.  On \<^typ>\<open>int\<close> the
  operation \<^term>\<open>drop_bit\<close> rounds towards minus infinity and \<open>AND\<close> works on the two's
  complement representation, exactly as Python's \<^verbatim>\<open>>>\<close> and \<^verbatim>\<open>&\<close> do.  Python strings
  are modelled as \<^typ>\<open>string\<close>.
\<close>

definition octal_digit_to_rwx :: "int \<Rightarrow> string" where
  "octal_digit_to_rwx octal_digit =
     (let r = (if octal_digit AND 4 \<noteq> 0 then ''r'' else ''-'');
          w = (if octal_digit AND 2 \<noteq> 0 then ''w'' else ''-'');
          x = (if octal_digit AND 1 \<noteq> 0 then ''x'' else ''-'')
      in r @ w @ x)"

definition permissions_to_rwx :: "int \<Rightarrow> string" where
  "permissions_to_rwx octal_permissions =
     fold (\<lambda>shift result.
             let digit = drop_bit shift octal_permissions AND 7
             in result @ octal_digit_to_rwx digit)
          [6, 3, 0] ''''"

text \<open>
  Modelled from the spec: \<^verbatim>\<open>symbol_to_value\<close>, the inverse direction of the codec.  The
  source file \<^verbatim>\<open>permissions.py\<close> only contains the direction from a value to its symbol;
  the spec names the inverse ("converting a 9-bit permission value to/from a symbolic rwx
  triad string") without giving its algorithm.  The definition reads every triad the way
  \<^const>\<open>octal_digit_to_rwx\<close> writes it: position 0 carries bit 2 when it holds \<^verbatim>\<open>r\<close>,
  position 1 carries bit 1 when it holds \<^verbatim>\<open>w\<close>, position 2 carries bit 0 when it holds
  \<^verbatim>\<open>x\<close>; the owner, group and other triads are weighted by \<open>0o100\<close>, \<open>0o10\<close> and \<open>1\<close>.
  A string that is not nine characters long has no value.
\<close>

definition symbol_to_digit :: "string \<Rightarrow> int" where
  "symbol_to_digit s =
     (if s ! 0 = CHR ''r'' then 4 else 0) +
     (if s ! 1 = CHR ''w'' then 2 else 0) +
     (if s ! 2 = CHR ''x'' then 1 else 0)"

definition symbol_to_value :: "string \<Rightarrow> int option" where
  "symbol_to_value s =
     (if length s = 9
      then Some (64 * symbol_to_digit (take 3 s)
                 + 8 * symbol_to_digit (take 3 (drop 3 s))
                 + symbol_to_digit (drop 6 s))
      else None)"

section \<open>Permission auditor (\<^verbatim>\<open>permissions.py\<close>)\<close>

subsection \<open>The filesystem as the auditor sees it\<close>

text \<open>
  The auditor reaches the filesystem through path strings.  A node describes one path: the
  name of its last component, whether that component is a symbolic link (\<open>Some l\<close>, with
  \<open>l\<close> the inode number of the link itself), and the object that the path resolves to once
  every link is followed: a plain file or a directory, by inode number, with, for a
  directory, the nodes of the paths below it in the order in which \<^verbatim>\<open>os.listdir\<close> returns
  them.  \<open>Dangling\<close> is a link that resolves to nothing (its target is missing, or the
  kernel gives up after too many levels of links, which is what keeps the paths below a
  cycle of links finite).  Two nodes with the same kind and inode number are one object
  reached by two paths.

  The audit never changes this structure.  What it reads and writes are the permission bits
  (\<^verbatim>\<open>st_mode & 0o7777\<close>) of the objects, kept in a store: a link has bits of its own, which
  \<^verbatim>\<open>os.stat(path, follow_symlinks=False)\<close> reads, while \<^verbatim>\<open>os.stat\<close> with
  \<^verbatim>\<open>follow_symlinks=True\<close>, \<^verbatim>\<open>os.chmod\<close>, \<^verbatim>\<open>os.listdir\<close>, \<^verbatim>\<open>os.path.isdir\<close> and
  \<^verbatim>\<open>Path.exists\<close> all act on the object that the path resolves to.
\<close>

datatype obj = FileObj nat | DirObj nat | LinkObj nat

datatype node =
    FileAt string "nat option" nat
  | DirAt string "nat option" nat "node list"
  | Dangling string nat

fun node_name :: "node \<Rightarrow> string" where
  "node_name (FileAt n k i) = n"
| "node_name (DirAt n k i cs) = n"
| "node_name (Dangling n l) = n"

text \<open>The object at the path itself, and the object that the path resolves to.\<close>

fun own_obj :: "node \<Rightarrow> obj" where
  "own_obj (FileAt n None i) = FileObj i"
| "own_obj (FileAt n (Some l) i) = LinkObj l"
| "own_obj (DirAt n None i cs) = DirObj i"
| "own_obj (DirAt n (Some l) i cs) = LinkObj l"
| "own_obj (Dangling n l) = LinkObj l"

fun target_obj :: "node \<Rightarrow> obj option" where
  "target_obj (FileAt n k i) = Some (FileObj i)"
| "target_obj (DirAt n k i cs) = Some (DirObj i)"
| "target_obj (Dangling n l) = None"

fun resolves_to_dir :: "node \<Rightarrow> bool" where
  "resolves_to_dir (FileAt n k i) = False"
| "resolves_to_dir (DirAt n k i cs) = True"
| "resolves_to_dir (Dangling n l) = False"

subsection \<open>Calls to the operating system\<close>

text \<open>
  Each function of the model returns the store of permission bits it leaves behind, the
  calls it made, in order, and the exception it raised, if any.  The
  \<^verbatim>\<open>await asyncio.to_thread(...)\<close> wrappers run one call after the other, so the model is
  sequential.

  Whether a call fails with \<^verbatim>\<open>OSError\<close> for a reason of its own (a missing right, say) is
  not decided by the source; it is a parameter \<open>os\<close> of the model, and every property
  below holds for every choice of it.  Beyond that, \<^verbatim>\<open>os.stat\<close> and \<^verbatim>\<open>os.chmod\<close> fail on a
  path that resolves to nothing, \<^verbatim>\<open>os.listdir\<close> fails on a path that does not resolve to a
  directory, and \<^verbatim>\<open>os.path.isdir\<close> answers \<^verbatim>\<open>False\<close> when its \<^verbatim>\<open>stat\<close> fails.  \<^verbatim>\<open>os.chmod\<close>
  replaces the twelve permission bits of the object.  The text of an exception is cut after
  the path; \<^verbatim>\<open>PermissionError\<close> is itself an \<^verbatim>\<open>OSError\<close>, so every level of \<^verbatim>\<open>traverse\<close>
  wraps the error of the level below again.
\<close>

datatype oscall =
    Exists string
  | Stat string bool
  | Chmod string int
  | Listdir string
  | Isdir string

record os_faults =
  stat_fails :: "string \<Rightarrow> bool \<Rightarrow> bool"
  chmod_fails :: "string \<Rightarrow> bool"
  listdir_fails :: "string \<Rightarrow> bool"

definition os_stat ::
  "os_faults \<Rightarrow> (obj \<Rightarrow> int) \<Rightarrow> string \<Rightarrow> node \<Rightarrow> bool \<Rightarrow> int option" where
  "os_stat os perms path node follow_symlinks =
     (if stat_fails os path follow_symlinks then None
      else if follow_symlinks then map_option perms (target_obj node)
      else Some (perms (own_obj node)))"

definition os_chmod ::
  "os_faults \<Rightarrow> (obj \<Rightarrow> int) \<Rightarrow> string \<Rightarrow> node \<Rightarrow> int \<Rightarrow> (obj \<Rightarrow> int) option" where
  "os_chmod os perms path node m =
     (if chmod_fails os path then None
      else case target_obj node of
             None \<Rightarrow> None
           | Some x \<Rightarrow> Some (perms(x := m AND 4095)))"

definition os_path_isdir :: "os_faults \<Rightarrow> string \<Rightarrow> node \<Rightarrow> bool" where
  "os_path_isdir os path node = (\<not> stat_fails os path True \<and> resolves_to_dir node)"

subsection \<open>The audit\<close>

definition check_and_correct ::
  "os_faults \<Rightarrow> int \<Rightarrow> bool \<Rightarrow> string \<Rightarrow> node \<Rightarrow> (obj \<Rightarrow> int)
     \<Rightarrow> (obj \<Rightarrow> int) \<times> oscall list \<times> error option" where
  "check_and_correct os request_permissions resolve path node perms =
     (case os_stat os perms path node resolve of
        None \<Rightarrow>
          (perms, [Stat path resolve], Some (PermissionError (''Permission error: '' @ path)))
      | Some st_mode \<Rightarrow>
          let current_permissions = st_mode AND 511 in
          if current_permissions \<noteq> request_permissions
          then (case os_chmod os perms path node request_permissions of
                  None \<Rightarrow>
                    (perms, [Stat path resolve, Chmod path request_permissions],
                     Some (PermissionError (''Permission error: '' @ path)))
                | Some perms' \<Rightarrow>
                    (perms', [Stat path resolve, Chmod path request_permissions], None))
          else (perms, [Stat path resolve], None))"

text \<open>
  \<^verbatim>\<open>traverse\<close> has one equation for each kind of node, because \<^verbatim>\<open>os.listdir\<close> decides by
  it.  \<open>traverse_child_dirs\<close> is the loop \<^verbatim>\<open>for child_dir in child_dirs\<close>: it walks the
  listing, descends into the children for which \<^verbatim>\<open>os.path.isdir\<close> answered \<^verbatim>\<open>True\<close>, and
  stops at the first exception.  The \<^verbatim>\<open>isdir\<close> calls of the list comprehension all come
  before the first descent; their answers do not depend on permission bits that the audit
  writes.
\<close>

fun traverse ::
  "os_faults \<Rightarrow> int \<Rightarrow> bool \<Rightarrow> string \<Rightarrow> node \<Rightarrow> (obj \<Rightarrow> int)
     \<Rightarrow> (obj \<Rightarrow> int) \<times> oscall list \<times> error option"
and traverse_child_dirs ::
  "os_faults \<Rightarrow> int \<Rightarrow> bool \<Rightarrow> string \<Rightarrow> node list \<Rightarrow> (obj \<Rightarrow> int)
     \<Rightarrow> (obj \<Rightarrow> int) \<times> oscall list \<times> error option"
where
  "traverse os request_permissions resolve path (DirAt n k i cs) perms =
     (case check_and_correct os request_permissions resolve path (DirAt n k i cs) perms of
        (perms1, calls, Some e) \<Rightarrow>
          (perms1, calls, Some (PermissionError (''Traversal error: '' @ path)))
      | (perms1, calls, None) \<Rightarrow>
          if listdir_fails os path
          then (perms1, calls @ [Listdir path],
                Some (PermissionError (''Traversal error: '' @ path)))
          else
            (case traverse_child_dirs os request_permissions resolve path cs perms1 of
               (perms2, calls', err) \<Rightarrow>
                 (perms2,
                  calls @ [Listdir path]
                    @ map (\<lambda>child. Isdir (os_path_join path (node_name child))) cs
                    @ calls',
                  (case err of
                     None \<Rightarrow> None
                   | Some e \<Rightarrow> Some (PermissionError (''Traversal error: '' @ path))))))"
| "traverse os request_permissions resolve path (FileAt n k i) perms =
     (case check_and_correct os request_permissions resolve path (FileAt n k i) perms of
        (perms1, calls, Some e) \<Rightarrow>
          (perms1, calls, Some (PermissionError (''Traversal error: '' @ path)))
      | (perms1, calls, None) \<Rightarrow>
          (perms1, calls @ [Listdir path],
           Some (PermissionError (''Traversal error: '' @ path))))"
| "traverse os request_permissions resolve path (Dangling n l) perms =
     (case check_and_correct os request_permissions resolve path (Dangling n l) perms of
        (perms1, calls, Some e) \<Rightarrow>
          (perms1, calls, Some (PermissionError (''Traversal error: '' @ path)))
      | (perms1, calls, None) \<Rightarrow>
          (perms1, calls @ [Listdir path],
           Some (PermissionError (''Traversal error: '' @ path))))"
| "traverse_child_dirs os request_permissions resolve path [] perms = (perms, [], None)"
| "traverse_child_dirs os request_permissions resolve path (child # rest) perms =
     (if os_path_isdir os (os_path_join path (node_name child)) child
      then
        (case traverse os request_permissions resolve
                (os_path_join path (node_name child)) child perms of
           (perms1, calls, Some e) \<Rightarrow> (perms1, calls, Some e)
         | (perms1, calls, None) \<Rightarrow>
             (case traverse_child_dirs os request_permissions resolve path rest perms1 of
                (perms2, calls', err) \<Rightarrow> (perms2, calls @ calls', err)))
      else traverse_child_dirs os request_permissions resolve path rest perms)"

text \<open>
  \<open>target\<close> is what the filesystem holds at \<open>full_path\<close> (the root path joined with the
  requested directory path): \<open>None\<close> when nothing is there.  \<^verbatim>\<open>full_path.exists()\<close> follows
  links, so a dangling link does not exist either.
\<close>

definition check_permissions ::
  "os_faults \<Rightarrow> (obj \<Rightarrow> int) \<Rightarrow> node option \<Rightarrow> string \<Rightarrow> int \<Rightarrow> bool
     \<Rightarrow> (obj \<Rightarrow> int) \<times> oscall list \<times> error option" where
  "check_permissions os perms target full_path request_permissions resolve =
     (case target of
        None \<Rightarrow> (perms, [Exists full_path], None)
      | Some node \<Rightarrow>
          if target_obj node = None then (perms, [Exists full_path], None)
          else
            (case traverse os request_permissions resolve full_path node perms of
               (perms', calls, err) \<Rightarrow> (perms', Exists full_path # calls, err)))"

section \<open>Directory tree renderer (\<^verbatim>\<open>structure.py\<close>)\<close>

text \<open>
  The box-drawing connectors of the source, as UTF-8 bytes: the corner \<^verbatim>\<open>U+2514\<close>, the tee
  \<^verbatim>\<open>U+251C\<close> and the vertical bar \<^verbatim>\<open>U+2502\<close>, with the horizontal bar \<^verbatim>\<open>U+2500\<close>.
\<close>

definition corner :: string where
  "corner = [CHR 0xE2, CHR 0x94, CHR 0x94, CHR 0xE2, CHR 0x94, CHR 0x80,
             CHR 0xE2, CHR 0x94, CHR 0x80, CHR '' '']"

definition tee :: string where
  "tee = [CHR 0xE2, CHR 0x94, CHR 0x9C, CHR 0xE2, CHR 0x94, CHR 0x80,
          CHR 0xE2, CHR 0x94, CHR 0x80, CHR '' '']"

definition pipe :: string where
  "pipe = [CHR 0xE2, CHR 0x94, CHR 0x82, CHR '' '', CHR '' '', CHR '' '']"

definition blank :: string where
  "blank = ''    ''"

definition join_lines :: "string list \<Rightarrow> string" where
  "join_lines ls =
     (case ls of [] \<Rightarrow> '''' | l # rest \<Rightarrow> l @ concat (map (\<lambda>x. CHR 0x0A # x) rest))"

subsection \<open>The text pass\<close>

text \<open>
  \<open>markdown_skips\<close> is the condition of the list comprehension that builds \<^verbatim>\<open>items\<close>,
  \<open>markdown_items\<close> the comprehension itself: the listing sorted by the key
  \<^verbatim>\<open>(x.is_file(), x.name)\<close>, with the skipped directories removed.  The source writes it
  twice, for the root and for every nested directory.
\<close>

definition markdown_skips :: "string list \<Rightarrow> bool \<Rightarrow> entry \<Rightarrow> bool" where
  "markdown_skips excluded_directories exclude_hidden item =
     (is_dir item \<and> (name item \<in> set excluded_directories
                      \<or> (exclude_hidden \<and> startswith (name item) ''.'')))"

definition markdown_items :: "string list \<Rightarrow> bool \<Rightarrow> entry list \<Rightarrow> entry list" where
  "markdown_items excluded_directories exclude_hidden cs =
     filter (\<lambda>item. \<not> markdown_skips excluded_directories exclude_hidden item)
       (sort_key (\<lambda>x. (is_file x, name x)) cs)"

text \<open>
  \<^verbatim>\<open>_generate_markdown_tree\<close> is only called on directories; the model takes the
  directory's name and children.  It returns the lines that the source appends to
  \<^verbatim>\<open>markdown_lines\<close>.
\<close>

function generate_markdown_tree ::
  "string list \<Rightarrow> bool \<Rightarrow> string \<Rightarrow> entry list \<Rightarrow> string \<Rightarrow> bool \<Rightarrow> string list" where
  "generate_markdown_tree excluded_directories exclude_hidden nm cs prefix is_last =
     (let connector = (if is_last then corner else tee);
          current_prefix = prefix @ connector;
          next_prefix = prefix @ (if is_last then blank else pipe);
          items = markdown_items excluded_directories exclude_hidden cs
      in (current_prefix @ nm @ ''/'') #
         concat (map (\<lambda>(i, item).
                   let is_last_item = (i = length items - 1) in
                   (case item of
                      Dir n m dcs \<Rightarrow>
                        generate_markdown_tree excluded_directories exclude_hidden n dcs
                          next_prefix is_last_item
                    | File n m \<Rightarrow>
                        if path_suffix n = ''.py''
                        then (let item_connector = (if is_last_item then corner else tee)
                              in [next_prefix @ item_connector @ n])
                        else []))
                 (enumerate 0 items)))"
  by pat_completeness auto
termination
proof (relation "measure (\<lambda>(ex, h, nm, cs, p, l). size_list size cs)", goal_cases)
  case 1
  show ?case by simp
next
  case (2 ex h nm cs prefix is_last connector current_prefix next_prefix items z i item
      is_last_item n m dcs)
  then have "(i, Dir n m dcs) \<in> set (enumerate 0 (markdown_items ex h cs))"
    by simp
  then have "Dir n m dcs \<in> set (markdown_items ex h cs)"
    by (metis in_set_zipE enumerate_eq_zip)
  then have "Dir n m dcs \<in> set cs"
    by (simp add: markdown_items_def)
  then have "size (Dir n m dcs) \<le> size_list size cs"
    by (simp add: size_list_estimation')
  then show ?case by simp
qed

subsection \<open>The mapping pass\<close>

text \<open>
  A value of the nested mapping is a dotted path or another mapping.  A Python \<^verbatim>\<open>dict\<close>
  is an association list in insertion order: \<^verbatim>\<open>d[k] = v\<close> is \<^const>\<open>AList.update\<close> and
  \<^verbatim>\<open>d[k]\<close> is \<^const>\<open>map_of\<close>.
\<close>

datatype dict_value = Str string | Dict "(string \<times> dict_value) list"

definition dict_skips :: "string list \<Rightarrow> bool \<Rightarrow> string \<Rightarrow> bool" where
  "dict_skips excluded_directories exclude_hidden nm =
     (nm \<in> set excluded_directories \<or> (exclude_hidden \<and> startswith nm ''.''))"

text \<open>
  \<^verbatim>\<open>_build_dict_structure\<close> takes the children of \<^verbatim>\<open>path\<close> and returns \<^verbatim>\<open>current_dict\<close> as
  the loop leaves it; \<open>build_dict_item\<close> is the body of the loop.  For a package the
  source stores a fresh \<^verbatim>\<open>{}\<close> under the package name and fills that same object in the
  recursive call, which cannot reach the parent mapping: the value stored under the key in
  the end is the mapping that the recursion builds from \<^verbatim>\<open>{}\<close>.
\<close>

function build_dict_structure ::
  "string list \<Rightarrow> bool \<Rightarrow> entry list \<Rightarrow> (string \<times> dict_value) list \<Rightarrow> string
     \<Rightarrow> (string \<times> dict_value) list"
and build_dict_item ::
  "string list \<Rightarrow> bool \<Rightarrow> string \<Rightarrow> entry \<Rightarrow> (string \<times> dict_value) list
     \<Rightarrow> (string \<times> dict_value) list"
where
  "build_dict_structure excluded_directories exclude_hidden cs current_dict module_prefix =
     fold (build_dict_item excluded_directories exclude_hidden module_prefix)
       (sort_key name cs) current_dict"
| "build_dict_item excluded_directories exclude_hidden module_prefix item current_dict =
     (if dict_skips excluded_directories exclude_hidden (name item)
      then current_dict
      else
        (case item of
           Dir n m dcs \<Rightarrow>
             if path_exists dcs ''__init__.py''
             then
               (let package_name = n;
                    package_path = (if module_prefix \<noteq> ''''
                                    then module_prefix @ package_name @ ''.''
                                    else package_name @ ''.'');
                    fresh = AList.update package_name (Dict []) current_dict
                in AList.update package_name
                     (Dict (build_dict_structure excluded_directories exclude_hidden dcs []
                              package_path))
                     fresh)
             else build_dict_structure excluded_directories exclude_hidden dcs current_dict
                    (module_prefix @ n @ ''.'')
         | File n m \<Rightarrow>
             if path_suffix n = ''.py''
             then (let module_name = path_stem n;
                       module_path = module_prefix @ module_name
                   in AList.update module_name (Str module_path) current_dict)
             else current_dict))"
  by pat_completeness auto
termination
  by (relation "measure (\<lambda>x. case x of
                   Inl (ex, h, cs, cur, p) \<Rightarrow> 2 * size_list size cs + 1
                 | Inr (ex, h, p, item, cur) \<Rightarrow> 2 * size item)")
     (auto simp: less_Suc_eq_le intro: size_list_estimation')

subsection \<open>The entry point\<close>

text \<open>
  The root is an existing entry.  Listing a root that is a plain file raises
  \<^verbatim>\<open>NotADirectoryError\<close> in whichever pass runs first; with a directory as root both passes
  return.  The result is the pair \<^verbatim>\<open>(markdown_output, dict_output)\<close> of the source.
\<close>

definition default_excluded :: "string list" where
  "default_excluded = [''.venv'', ''__pycache__'', ''tests'']"

definition generate_directory_tree ::
  "entry \<Rightarrow> string list option \<Rightarrow> bool \<Rightarrow> string \<Rightarrow> (string \<Rightarrow> string) option
     \<Rightarrow> error + (string option \<times> (string \<times> dict_value) list option)" where
  "generate_directory_tree directory excluded exclude_hidden output_format formatter =
     (let excluded_directories = (case excluded of None \<Rightarrow> default_excluded | Some e \<Rightarrow> e)
      in case directory of
           File nm m \<Rightarrow>
             if output_format \<in> set [''markdown'', ''both'']
                \<or> output_format \<in> set [''dict'', ''both'']
             then Inl NotADirectoryError
             else Inr (None, Some [])
         | Dir nm m cs \<Rightarrow>
             let markdown_output =
                   (if output_format \<in> set [''markdown'', ''both'']
                    then
                      (let items = markdown_items excluded_directories exclude_hidden cs;
                           markdown_lines =
                             [''# Project Structure: '' @ nm, ''```'', nm @ ''/'']
                             @ concat (map (\<lambda>(i, item).
                                  let is_last = (i = length items - 1) in
                                  (case item of
                                     Dir n m' dcs \<Rightarrow>
                                       generate_markdown_tree excluded_directories
                                         exclude_hidden n dcs '''' is_last
                                   | File n m' \<Rightarrow>
                                       if path_suffix n = ''.py''
                                       then (let connector = (if is_last then corner else tee)
                                             in [connector @ n])
                                       else []))
                                 (enumerate 0 items))
                             @ [''```''];
                           result_str = join_lines markdown_lines
                       in Some (case formatter of Some f \<Rightarrow> f result_str | None \<Rightarrow> result_str))
                    else None);
                 dict_output =
                   (if output_format \<in> set [''dict'', ''both'']
                    then
                      (if path_exists cs ''__init__.py''
                       then
                         (let package_name = nm;
                              fresh = AList.update package_name (Dict []) []
                          in AList.update package_name
                               (Dict (build_dict_structure excluded_directories exclude_hidden
                                        cs [] (package_name @ ''.'')))
                               fresh)
                       else build_dict_structure excluded_directories exclude_hidden cs [] '''')
                    else [])
             in Inr (markdown_output, Some dict_output))"

section \<open>Observations used in the statements\<close>

text \<open>
  The paths that \<^verbatim>\<open>os.chmod\<close> was called on; the paths strictly below a node that
  resolve to a directory; and the paths strictly below it that resolve to a plain file,
  each with the permission bits of that file.
\<close>

primrec chmod_target :: "oscall \<Rightarrow> string list" where
  "chmod_target (Exists p) = []"
| "chmod_target (Stat p follow) = []"
| "chmod_target (Chmod p m) = [p]"
| "chmod_target (Listdir p) = []"
| "chmod_target (Isdir p) = []"

definition chmod_targets :: "oscall list \<Rightarrow> string list" where
  "chmod_targets calls = concat (map chmod_target calls)"

fun directories_below :: "string \<Rightarrow> node \<Rightarrow> string list"
and directories_in :: "string \<Rightarrow> node list \<Rightarrow> string list" where
  "directories_below path (FileAt n k i) = []"
| "directories_below path (Dangling n l) = []"
| "directories_below path (DirAt n k i cs) = directories_in path cs"
| "directories_in path [] = []"
| "directories_in path (c # cs) =
     (if resolves_to_dir c
      then os_path_join path (node_name c)
             # directories_below (os_path_join path (node_name c)) c
      else [])
     @ directories_in path cs"

fun files_below :: "(obj \<Rightarrow> int) \<Rightarrow> string \<Rightarrow> node \<Rightarrow> (string \<times> int) list"
and files_in :: "(obj \<Rightarrow> int) \<Rightarrow> string \<Rightarrow> node list \<Rightarrow> (string \<times> int) list" where
  "files_below perms path (FileAt n k i) = []"
| "files_below perms path (Dangling n l) = []"
| "files_below perms path (DirAt n k i cs) = files_in perms path cs"
| "files_in perms path [] = []"
| "files_in perms path (c # cs) =
     (case c of
        FileAt n k i \<Rightarrow> [(os_path_join path n, perms (FileObj i))]
      | _ \<Rightarrow> files_below perms (os_path_join path (node_name c)) c)
     @ files_in perms path cs"

text \<open>
  Every directory of the tree carries the requested permission bits; and no path of the
  tree ends in a symbolic link.
\<close>

fun directories_carry :: "(obj \<Rightarrow> int) \<Rightarrow> int \<Rightarrow> node \<Rightarrow> bool" where
  "directories_carry perms req (FileAt n k i) = True"
| "directories_carry perms req (Dangling n l) = True"
| "directories_carry perms req (DirAt n k i cs) =
     (perms (DirObj i) AND 511 = req \<and> (\<forall>c \<in> set cs. directories_carry perms req c))"

fun no_links :: "node \<Rightarrow> bool" where
  "no_links (FileAt n k i) = (k = None)"
| "no_links (Dangling n l) = False"
| "no_links (DirAt n k i cs) = (k = None \<and> (\<forall>c \<in> set cs. no_links c))"

text \<open>
  The keys that the mapping pass assigns in the current mapping while it handles an entry:
  the stem of a source file, the name of a package, and, for a directory that is not a
  package, the keys assigned while its children are handled.  A skipped entry assigns none.
\<close>

fun keys_written :: "string list \<Rightarrow> bool \<Rightarrow> entry \<Rightarrow> string set" where
  "keys_written ex h (File n m) =
     (if dict_skips ex h n then {} else if path_suffix n = ''.py'' then {path_stem n} else {})"
| "keys_written ex h (Dir n m dcs) =
     (if dict_skips ex h n then {}
      else if path_exists dcs ''__init__.py'' then {n}
      else (\<Union>c \<in> set dcs. keys_written ex h c))"

definition keys_written_by :: "string list \<Rightarrow> bool \<Rightarrow> entry list \<Rightarrow> string set" where
  "keys_written_by ex h items = (\<Union>c \<in> set items. keys_written ex h c)"

section \<open>Properties of the permission codec\<close>

lemma and_7_eq_mod: "(v::int) AND 7 = v mod 8"
  by (simp add: take_bit_eq_mask mask_eq_exp_minus_1 flip: take_bit_eq_mod[of 3 v, simplified])

lemma length_octal_digit_to_rwx: "length (octal_digit_to_rwx d) = 3"
  by (simp add: octal_digit_to_rwx_def Let_def)

lemma set_octal_digit_to_rwx:
  "set (octal_digit_to_rwx d) \<subseteq> {CHR ''r'', CHR ''w'', CHR ''x'', CHR ''-''}"
  by (simp add: octal_digit_to_rwx_def Let_def)

lemma permissions_to_rwx_triads:
  "permissions_to_rwx v =
     octal_digit_to_rwx (v div 64 mod 8) @ octal_digit_to_rwx (v div 8 mod 8)
       @ octal_digit_to_rwx (v mod 8)"
  by (simp add: permissions_to_rwx_def and_7_eq_mod drop_bit_eq_div)

lemma owner_digit_mod: "(v mod 512) div 64 mod 8 = (v::int) div 64 mod 8"
  using drop_bit_take_bit[of 6 9 v] by (simp add: take_bit_eq_mod drop_bit_eq_div)

lemma group_digit_mod: "(v mod 512) div 8 mod 8 = (v::int) div 8 mod 8"
  using drop_bit_take_bit[of 3 9 v] take_bit_take_bit[of 3 6 "drop_bit 3 v"]
  by (simp add: take_bit_eq_mod drop_bit_eq_div)

lemma other_digit_mod: "(v mod 512) mod 8 = (v::int) mod 8"
  using take_bit_take_bit[of 3 9 v] by (simp add: take_bit_eq_mod)

lemma octal_digits_recompose:
  assumes "0 \<le> v" "v \<le> 511"
  shows "64 * (v div 64 mod 8) + 8 * (v div 8 mod 8) + v mod 8 = (v::int)"
proof -
  have owner: "v div 64 mod 8 = v div 64"
    using assms by (simp add: div_less_iff_less_mult)
  have group: "v div 8 mod 8 = (v mod 64) div 8"
    using drop_bit_take_bit[of 3 6 v] by (simp add: take_bit_eq_mod drop_bit_eq_div)
  have other: "v mod 8 = (v mod 64) mod 8"
    using take_bit_take_bit[of 3 6 v] by (simp add: take_bit_eq_mod)
  have low: "8 * ((v mod 64) div 8) + (v mod 64) mod 8 = v mod 64" by simp
  have high: "64 * (v div 64) + v mod 64 = v" by simp
  show ?thesis using low high unfolding owner group other by linarith
qed

lemma symbol_to_digit_octal_digit_to_rwx:
  assumes "0 \<le> d" "d < 8"
  shows "symbol_to_digit (octal_digit_to_rwx d) = d"
proof -
  from assms consider "d = 0" | "d = 1" | "d = 2" | "d = 3" | "d = 4" | "d = 5" | "d = 6"
    | "d = 7" by arith
  then show ?thesis
    by cases (simp_all add: symbol_to_digit_def octal_digit_to_rwx_def)
qed

text \<open>
  Claim C3.  For every permission value \<open>v\<close> in \<open>[0, 0o777]\<close> (\<open>0o777 = 511\<close>), converting \<open>v\<close>
  to its symbolic string with \<^const>\<open>permissions_to_rwx\<close> and reading the string back with
  \<^const>\<open>symbol_to_value\<close> yields \<open>v\<close> again.
\<close>

theorem C3_round_trip:
  assumes "0 \<le> v" "v \<le> 511"
  shows "symbol_to_value (permissions_to_rwx v) = Some v"
proof -
  have len: "length (permissions_to_rwx v) = 9"
    by (simp add: permissions_to_rwx_triads length_octal_digit_to_rwx)
  have "symbol_to_value (permissions_to_rwx v)
          = Some (64 * (v div 64 mod 8) + 8 * (v div 8 mod 8) + v mod 8)"
    unfolding symbol_to_value_def
    by (simp add: permissions_to_rwx_triads length_octal_digit_to_rwx
        symbol_to_digit_octal_digit_to_rwx)
  then show ?thesis
    by (simp only: octal_digits_recompose[OF assms])
qed

theorem C3_round_trip_witness:
  "(0::int) \<le> 420 \<and> (420::int) \<le> 511 \<and> symbol_to_value (permissions_to_rwx 420) = Some 420"
  using C3_round_trip[of 420] by simp

text \<open>
  Claim C4.  For every permission value \<open>v\<close> in \<open>[0, 0o777]\<close>, \<^const>\<open>permissions_to_rwx\<close>
  returns exactly nine characters, each one of \<^verbatim>\<open>r\<close>, \<^verbatim>\<open>w\<close>, \<^verbatim>\<open>x\<close>, \<^verbatim>\<open>-\<close>; and
  \<open>0o755 = 493\<close> gives \<^verbatim>\<open>rwxr-xr-x\<close>, \<open>0o644 = 420\<close> gives \<^verbatim>\<open>rw-r--r--\<close>, \<open>0\<close> gives
  \<^verbatim>\<open>---------\<close> and \<open>0o777 = 511\<close> gives \<^verbatim>\<open>rwxrwxrwx\<close>.
\<close>

theorem C4_nine_symbols:
  "(\<forall>v. 0 \<le> v \<and> v \<le> 511 \<longrightarrow>
      length (permissions_to_rwx v) = 9 \<and>
      set (permissions_to_rwx v) \<subseteq> {CHR ''r'', CHR ''w'', CHR ''x'', CHR ''-''})
   \<and> permissions_to_rwx 493 = ''rwxr-xr-x''
   \<and> permissions_to_rwx 420 = ''rw-r--r--''
   \<and> permissions_to_rwx 0 = ''---------''
   \<and> permissions_to_rwx 511 = ''rwxrwxrwx''"
proof -
  have shape: "length (permissions_to_rwx v) = 9 \<and>
      set (permissions_to_rwx v) \<subseteq> {CHR ''r'', CHR ''w'', CHR ''x'', CHR ''-''}" for v
    using set_octal_digit_to_rwx[of "v div 64 mod 8"] set_octal_digit_to_rwx[of "v div 8 mod 8"]
      set_octal_digit_to_rwx[of "v mod 8"]
    by (simp add: permissions_to_rwx_triads length_octal_digit_to_rwx)
  have examples: "permissions_to_rwx 493 = ''rwxr-xr-x''" "permissions_to_rwx 420 = ''rw-r--r--''"
    "permissions_to_rwx 0 = ''---------''" "permissions_to_rwx 511 = ''rwxrwxrwx''"
    by (simp_all add: permissions_to_rwx_def octal_digit_to_rwx_def)
  show ?thesis using shape examples by blast
qed

theorem C4_nine_symbols_witness:
  "(0::int) \<le> 292 \<and> (292::int) \<le> 511 \<and> length (permissions_to_rwx 292) = 9
   \<and> set (permissions_to_rwx 292) \<subseteq> {CHR ''r'', CHR ''w'', CHR ''x'', CHR ''-''}
   \<and> permissions_to_rwx 292 = ''r--r--r--''"
proof -
  have "permissions_to_rwx 292 = ''r--r--r--''"
    by (simp add: permissions_to_rwx_def octal_digit_to_rwx_def)
  then show ?thesis using C4_nine_symbols by simp
qed

text \<open>
  Claim C10.  For every nonnegative integer \<open>v\<close>, also above \<open>0o777\<close>, \<^const>\<open>permissions_to_rwx\<close>
  returns a nine-character string, the same one as for \<open>v mod 0o1000\<close> (\<open>0o1000 = 512\<close>):
  only the low nine bits of the input are read.  The function is total: the shifts and
  masks of the source cannot raise on an integer.
\<close>

theorem C10_low_nine_bits:
  assumes "0 \<le> v"
  shows "permissions_to_rwx v = permissions_to_rwx (v mod 512)
         \<and> length (permissions_to_rwx v) = 9"
  by (simp add: permissions_to_rwx_triads owner_digit_mod group_digit_mod other_digit_mod
      length_octal_digit_to_rwx)

theorem C10_low_nine_bits_witness:
  "(0::int) \<le> 2541 \<and> permissions_to_rwx 2541 = permissions_to_rwx (2541 mod 512)
   \<and> permissions_to_rwx 2541 = ''rwxr-xr-x'' \<and> length (permissions_to_rwx 2541) = 9"
proof -
  have "permissions_to_rwx 2541 = ''rwxr-xr-x''"
    by (simp add: permissions_to_rwx_def octal_digit_to_rwx_def)
  then show ?thesis using C10_low_nine_bits[of 2541] by simp
qed

section \<open>Properties of the permission auditor\<close>

lemma chmod_targets_append [simp]:
  "chmod_targets (xs @ ys) = chmod_targets xs @ chmod_targets ys"
  by (simp add: chmod_targets_def)

lemma chmod_targets_simps [simp]:
  "chmod_targets [] = []"
  "chmod_targets (Chmod p m # cs) = p # chmod_targets cs"
  "chmod_targets (Stat p f # cs) = chmod_targets cs"
  "chmod_targets (Listdir p # cs) = chmod_targets cs"
  "chmod_targets (Isdir p # cs) = chmod_targets cs"
  "chmod_targets (Exists p # cs) = chmod_targets cs"
  by (simp_all add: chmod_targets_def)

lemma chmod_targets_isdir [simp]: "chmod_targets (map (\<lambda>c. Isdir (f c)) cs) = []"
  by (induction cs) simp_all

subsection \<open>What one correction can touch\<close>

lemma check_and_correct_frame:
  assumes "check_and_correct os req resolve path node perms = (perms', calls, err)"
  shows "set (chmod_targets calls) \<subseteq> {path}
         \<and> (\<forall>x. perms' x \<noteq> perms x \<longrightarrow> target_obj node = Some x)"
  using assms
  by (auto simp: check_and_correct_def os_chmod_def Let_def
      split: if_splits option.splits)

lemma target_obj_dir: "resolves_to_dir node \<Longrightarrow> \<exists>i. target_obj node = Some (DirObj i)"
  by (cases node) auto

lemma traverse_frame:
  "traverse os req resolve path node perms = (perms', calls, err) \<Longrightarrow>
     set (chmod_targets calls) \<subseteq> insert path (set (directories_below path node))
     \<and> (\<forall>x. perms' x \<noteq> perms x \<longrightarrow> target_obj node = Some x \<or> (\<exists>i. x = DirObj i))"
  "traverse_child_dirs os req resolve path cs perms = (perms', calls', err') \<Longrightarrow>
     set (chmod_targets calls') \<subseteq> set (directories_in path cs)
     \<and> (\<forall>x. perms' x \<noteq> perms x \<longrightarrow> (\<exists>i. x = DirObj i))"
proof (induction os req resolve path node perms and os req resolve path cs perms
    arbitrary: perms' calls err and perms' calls' err'
    rule: traverse_traverse_child_dirs.induct)
  case (1 os req resolve path n k i cs perms)
  obtain perms1 calls1 err1
    where cc: "check_and_correct os req resolve path (DirAt n k i cs) perms
                 = (perms1, calls1, err1)"
    by (cases "check_and_correct os req resolve path (DirAt n k i cs) perms") auto
  note fr = check_and_correct_frame[OF cc]
  show ?case
  proof (cases "err1 = None \<and> \<not> listdir_fails os path")
    case False
    then show ?thesis
      using "1.prems" cc fr by (auto split: if_splits option.splits)
  next
    case True
    obtain perms2 calls2 err2
      where tc: "traverse_child_dirs os req resolve path cs perms1 = (perms2, calls2, err2)"
      by (cases "traverse_child_dirs os req resolve path cs perms1") auto
    have ih: "set (chmod_targets calls2) \<subseteq> set (directories_in path cs)
              \<and> (\<forall>x. perms2 x \<noteq> perms1 x \<longrightarrow> (\<exists>i. x = DirObj i))"
      using "1.IH"[OF cc[symmetric] _ _ _ tc] True by auto
    have res: "perms' = perms2"
      "calls = calls1 @ [Listdir path]
          @ map (\<lambda>child. Isdir (os_path_join path (node_name child))) cs @ calls2"
      using "1.prems" cc True tc by auto
    have changed: "target_obj (DirAt n k i cs) = Some x \<or> (\<exists>i. x = DirObj i)"
      if "perms' x \<noteq> perms x" for x
    proof (cases "perms2 x = perms1 x")
      case True
      with that res have "perms1 x \<noteq> perms x" by simp
      with fr show ?thesis by blast
    next
      case False
      with ih show ?thesis by blast
    qed
    have "set (chmod_targets calls) \<subseteq> insert path (set (directories_in path cs))"
      using res fr ih by auto
    with changed show ?thesis by auto
  qed
next
  case (2 os req resolve path n k i perms)
  then show ?case
    by (auto split: prod.splits option.splits dest!: check_and_correct_frame)
next
  case (3 os req resolve path n l perms)
  then show ?case
    by (auto split: prod.splits option.splits dest!: check_and_correct_frame)
next
  case (4 os req resolve path perms)
  then show ?case by simp
next
  case (5 os req resolve path child rest perms)
  show ?case
  proof (cases "os_path_isdir os (os_path_join path (node_name child)) child")
    case False
    from "5.IH"(3)[OF False] "5.prems" False show ?thesis by auto
  next
    case True
    then have d: "resolves_to_dir child"
      by (simp add: os_path_isdir_def)
    obtain perms1 calls1 err1
      where tr: "traverse os req resolve (os_path_join path (node_name child)) child perms
                   = (perms1, calls1, err1)"
      by (cases "traverse os req resolve (os_path_join path (node_name child)) child perms")
        auto
    from "5.IH"(1)[OF True tr] target_obj_dir[OF d]
    have ih1: "set (chmod_targets calls1)
                 \<subseteq> insert (os_path_join path (node_name child))
                     (set (directories_below (os_path_join path (node_name child)) child))"
      "\<forall>x. perms1 x \<noteq> perms x \<longrightarrow> (\<exists>i. x = DirObj i)"
      by auto
    show ?thesis
    proof (cases err1)
      case (Some e)
      then show ?thesis
        using "5.prems" True tr ih1 d by auto
    next
      case None
      obtain perms2 calls2 err2
        where tc: "traverse_child_dirs os req resolve path rest perms1
                     = (perms2, calls2, err2)"
        by (cases "traverse_child_dirs os req resolve path rest perms1") auto
      from "5.IH"(2)[OF True tr[symmetric] _ None tc]
      have ih2: "set (chmod_targets calls2) \<subseteq> set (directories_in path rest)"
        "\<forall>x. perms2 x \<noteq> perms1 x \<longrightarrow> (\<exists>i. x = DirObj i)"
        by simp_all
      have res: "perms' = perms2" "calls' = calls1 @ calls2"
        using "5.prems" True tr None tc by auto
      have "\<exists>i. x = DirObj i" if "perms' x \<noteq> perms x" for x
        using that res ih1(2) ih2(2) by (cases "perms2 x = perms1 x") auto
      moreover have "set (chmod_targets calls') \<subseteq> set (directories_in path (child # rest))"
        using res ih1(1) ih2(1) d by auto
      ultimately show ?thesis by blast
    qed
  qed
qed

lemma files_unchanged:
  "\<forall>i. perms' (FileObj i) = perms (FileObj i) \<Longrightarrow>
     files_below perms' path node = files_below perms path node"
  "\<forall>i. perms' (FileObj i) = perms (FileObj i) \<Longrightarrow>
     files_in perms' path cs = files_in perms path cs"
  by (induction perms path node and perms path cs rule: files_below_files_in.induct)
     (auto split: node.splits)

text \<open>
  Claim C5.  For every existing audit target, \<^verbatim>\<open>os.chmod\<close> is only called on the root node
  itself and on paths of the tree below it that resolve to a directory; the plain files
  strictly inside the tree have the same permission bits after the audit as before, whether
  the audit returns or raises, and whether or not symbolic links are followed.
\<close>

theorem C5_only_root_and_directories_corrected:
  assumes "check_permissions os perms (Some node) full_path request_permissions resolve
             = (perms', calls, err)"
  shows "set (chmod_targets calls) \<subseteq> insert full_path (set (directories_below full_path node))
         \<and> files_below perms' full_path node = files_below perms full_path node"
proof (cases "target_obj node")
  case None
  then show ?thesis
    using assms by (cases node) (auto simp: check_permissions_def)
next
  case (Some x)
  then obtain calls0 where
    tr: "traverse os request_permissions resolve full_path node perms = (perms', calls0, err)"
    and res: "calls = Exists full_path # calls0"
    using assms by (auto simp: check_permissions_def split: prod.splits)
  note fr = traverse_frame(1)[OF tr]
  have "files_below perms' full_path node = files_below perms full_path node"
  proof (cases node)
    case (DirAt n k i cs)
    with fr have "\<forall>i. perms' (FileObj i) = perms (FileObj i)"
      by auto
    then show ?thesis by (rule files_unchanged(1))
  qed simp_all
  with fr res show ?thesis by simp
qed

theorem C5_only_root_and_directories_corrected_witness:
  "check_permissions
     \<lparr>stat_fails = (\<lambda>p f. False), chmod_fails = (\<lambda>p. False), listdir_fails = (\<lambda>p. False)\<rparr>
     ((\<lambda>x. 420)(DirObj 0 := 448, DirObj 1 := 493, DirObj 2 := 511, FileObj 11 := 384))
     (Some (DirAt ''d'' None 0
              [FileAt ''a.py'' None 10,
               DirAt ''s'' None 1 [FileAt ''b'' None 11, DirAt ''t'' None 2 []]]))
     ''/srv/d'' 493 False
   = ((\<lambda>x. 420)(DirObj 0 := 493, DirObj 1 := 493, DirObj 2 := 493, FileObj 11 := 384),
      [Exists ''/srv/d'', Stat ''/srv/d'' False, Chmod ''/srv/d'' 493, Listdir ''/srv/d'',
       Isdir ''/srv/d/a.py'', Isdir ''/srv/d/s'', Stat ''/srv/d/s'' False, Listdir ''/srv/d/s'',
       Isdir ''/srv/d/s/b'', Isdir ''/srv/d/s/t'', Stat ''/srv/d/s/t'' False,
       Chmod ''/srv/d/s/t'' 493, Listdir ''/srv/d/s/t''],
      None)
   \<and> set [''/srv/d'', ''/srv/d/s/t''] \<subseteq> set [''/srv/d'', ''/srv/d/s'', ''/srv/d/s/t'']
   \<and> files_below
        ((\<lambda>x. 420)(DirObj 0 := 493, DirObj 1 := 493, DirObj 2 := 493, FileObj 11 := 384))
        ''/srv/d''
        (DirAt ''d'' None 0
           [FileAt ''a.py'' None 10,
            DirAt ''s'' None 1 [FileAt ''b'' None 11, DirAt ''t'' None 2 []]])
      = [(''/srv/d/a.py'', 420), (''/srv/d/s/b'', 384)]"
proof -
  let ?os = "\<lparr>stat_fails = (\<lambda>p f. False), chmod_fails = (\<lambda>p. False),
              listdir_fails = (\<lambda>p. False)\<rparr>"
  let ?tree = "DirAt ''d'' None 0
                 [FileAt ''a.py'' None 10,
                  DirAt ''s'' None 1 [FileAt ''b'' None 11, DirAt ''t'' None 2 []]]"
  let ?before = "(\<lambda>x. 420)(DirObj 0 := 448, DirObj 1 := 493, DirObj 2 := 511,
                   FileObj 11 := (384 :: int))"
  let ?after = "(\<lambda>x. 420)(DirObj 0 := 493, DirObj 1 := 493, DirObj 2 := 493,
                  FileObj 11 := (384 :: int))"
  let ?calls = "[Exists ''/srv/d'', Stat ''/srv/d'' False, Chmod ''/srv/d'' 493,
       Listdir ''/srv/d'', Isdir ''/srv/d/a.py'', Isdir ''/srv/d/s'', Stat ''/srv/d/s'' False,
       Listdir ''/srv/d/s'', Isdir ''/srv/d/s/b'', Isdir ''/srv/d/s/t'',
       Stat ''/srv/d/s/t'' False, Chmod ''/srv/d/s/t'' 493, Listdir ''/srv/d/s/t'']"
  have run: "check_permissions ?os ?before (Some ?tree) ''/srv/d'' 493 False
               = (?after, ?calls, None)"
    by (simp add: check_permissions_def check_and_correct_def os_stat_def os_chmod_def
        os_path_isdir_def os_path_join_def startswith_def fun_eq_iff)
  have dirs: "directories_below ''/srv/d'' ?tree = [''/srv/d/s'', ''/srv/d/s/t'']"
    by (simp add: os_path_join_def startswith_def)
  have files: "files_below ?before ''/srv/d'' ?tree
                 = [(''/srv/d/a.py'', 420), (''/srv/d/s/b'', 384)]"
    by (simp add: os_path_join_def startswith_def)
  from C5_only_root_and_directories_corrected[OF run]
  have "set (chmod_targets ?calls) \<subseteq> insert ''/srv/d'' (set (directories_below ''/srv/d'' ?tree))
        \<and> files_below ?after ''/srv/d'' ?tree = files_below ?before ''/srv/d'' ?tree"
    by simp
  then show ?thesis
    using run unfolding dirs files by simp
qed

subsection \<open>A tree that already carries the requested bits\<close>

text \<open>
  When links are followed (\<^verbatim>\<open>resolve\<close> is true), or no path of the tree ends in a link,
  \<^verbatim>\<open>os.stat\<close> reads the bits of the object that \<^verbatim>\<open>os.chmod\<close> would write, and the audit of
  a tree that carries the requested bits calls \<^verbatim>\<open>os.chmod\<close> not once.
\<close>

lemma own_obj_no_link: "no_links node \<Longrightarrow> Some (own_obj node) = target_obj node"
  by (cases node) auto

lemma check_and_correct_carried:
  assumes "resolve \<or> no_links node"
      and "target_obj node = Some x" and "perms x AND 511 = req"
  shows "check_and_correct os req resolve path node perms
           = (perms, [Stat path resolve],
              if stat_fails os path resolve
              then Some (PermissionError (''Permission error: '' @ path)) else None)"
  using assms own_obj_no_link[of node]
  by (auto simp: check_and_correct_def os_stat_def)

lemma traverse_carried:
  "resolve \<or> no_links node \<Longrightarrow> target_obj node = Some x \<Longrightarrow> perms x AND 511 = req \<Longrightarrow>
   directories_carry perms req node \<Longrightarrow>
     fst (traverse os req resolve path node perms) = perms
     \<and> chmod_targets (fst (snd (traverse os req resolve path node perms))) = []"
  "\<forall>c \<in> set cs. (resolve \<or> no_links c) \<and> directories_carry perms req c \<Longrightarrow>
     fst (traverse_child_dirs os req resolve path cs perms) = perms
     \<and> chmod_targets (fst (snd (traverse_child_dirs os req resolve path cs perms))) = []"
proof (induction os req resolve path node perms and os req resolve path cs perms
    arbitrary: x rule: traverse_traverse_child_dirs.induct)
  case (1 os req resolve path n k i cs perms)
  note cc = check_and_correct_carried[where perms=perms and x=x and os=os and path=path,
      OF "1.prems"(1,2,3)]
  show ?case
  proof (cases "stat_fails os path resolve \<or> listdir_fails os path")
    case True
    then show ?thesis
      using cc by (cases "stat_fails os path resolve") auto
  next
    case False
    then have cc': "check_and_correct os req resolve path (DirAt n k i cs) perms
                      = (perms, [Stat path resolve], None)"
      using cc by simp
    have kids: "\<forall>c \<in> set cs. (resolve \<or> no_links c) \<and> directories_carry perms req c"
      using "1.prems"(1,4) by auto
    have ih: "fst (traverse_child_dirs os req resolve path cs perms) = perms
      \<and> chmod_targets (fst (snd (traverse_child_dirs os req resolve path cs perms))) = []"
      using "1.IH"[OF cc'[symmetric] _ _ _ kids] False by simp
    show ?thesis
      using cc' False ih by (auto split: prod.splits)
  qed
next
  case (2 os req resolve path n k i perms)
  note cc = check_and_correct_carried[where perms=perms and x=x and os=os and path=path,
      OF "2.prems"(1,2,3)]
  show ?case
    using cc by (cases "stat_fails os path resolve") auto
next
  case (3 os req resolve path n l perms)
  then show ?case by simp
next
  case (4 os req resolve path perms)
  then show ?case by simp
next
  case (5 os req resolve path child rest perms)
  show ?case
  proof (cases "os_path_isdir os (os_path_join path (node_name child)) child")
    case False
    with "5.IH"(3)[OF False] "5.prems" show ?thesis
      by auto
  next
    case True
    then have "resolves_to_dir child"
      by (simp add: os_path_isdir_def)
    then obtain n k i cs where child: "child = DirAt n k i cs"
      by (cases child) auto
    have carry: "directories_carry perms req child" "resolve \<or> no_links child"
      using "5.prems" by auto
    then have bits: "target_obj child = Some (DirObj i)" "perms (DirObj i) AND 511 = req"
      using child by auto
    have ih1: "fst (traverse os req resolve (os_path_join path (node_name child)) child perms)
                 = perms
       \<and> chmod_targets
            (fst (snd (traverse os req resolve (os_path_join path (node_name child)) child
                         perms))) = []"
      using "5.IH"(1)[where x="DirObj i", OF True carry(2) bits carry(1)] .
    show ?thesis
    proof (cases "snd (snd (traverse os req resolve (os_path_join path (node_name child)) child
                              perms))")
      case (Some e)
      then show ?thesis
        using True ih1 by (auto split: prod.splits)
    next
      case None
      obtain p1 k1
        where tr: "traverse os req resolve (os_path_join path (node_name child)) child perms
                     = (p1, k1, None)"
        using None
        by (cases "traverse os req resolve (os_path_join path (node_name child)) child perms")
          auto
      with ih1 have p1: "p1 = perms" by simp
      have ih2: "fst (traverse_child_dirs os req resolve path rest perms) = perms
         \<and> chmod_targets (fst (snd (traverse_child_dirs os req resolve path rest perms))) = []"
        using "5.IH"(2)[OF True tr[symmetric] _ _] "5.prems" p1 by simp
      show ?thesis
        using True tr ih1 ih2 p1 by (auto split: prod.splits)
    qed
  qed
qed

lemma audit_idempotent_without_unfollowed_links:
  assumes "resolve \<or> no_links node"
      and "target_obj node = Some x" and "perms x AND 511 = request_permissions"
      and "directories_carry perms request_permissions node"
  shows "\<exists>calls err.
           check_permissions os perms (Some node) full_path request_permissions resolve
             = (perms, calls, err)
           \<and> chmod_targets calls = []"
proof -
  obtain perms' calls0 err
    where tr: "traverse os request_permissions resolve full_path node perms
                 = (perms', calls0, err)"
    by (cases "traverse os request_permissions resolve full_path node perms") auto
  from traverse_carried(1)[where perms=perms and x=x and os=os and path=full_path, OF assms] tr
  have "perms' = perms" "chmod_targets calls0 = []"
    by simp_all
  with tr assms(2) show ?thesis
    by (simp add: check_permissions_def)
qed

text \<open>
  Claim C6.  The claim says that the audit of a tree in which the root and every directory
  already carry the requested bits calls \<^verbatim>\<open>os.chmod\<close> not once.  The source reads the bits
  with \<^verbatim>\<open>os.stat(path, follow_symlinks=resolve)\<close>, and \<^verbatim>\<open>resolve\<close> is false by default,
  while \<^verbatim>\<open>os.path.isdir\<close> and \<^verbatim>\<open>os.chmod\<close> follow links.  In the directory \<^verbatim>\<open>d\<close> with
  the subdirectory \<^verbatim>\<open>s\<close> and the link \<^verbatim>\<open>l\<close> to \<^verbatim>\<open>s\<close>, both directories at \<open>0o755\<close>
  and the link, as links are, at \<open>0o777\<close>, the audit for \<open>0o755\<close> descends into \<^verbatim>\<open>d/l\<close>,
  reads the bits of the link, and calls \<^verbatim>\<open>os.chmod\<close> on \<^verbatim>\<open>d/l\<close>, which writes \<open>0o755\<close>
  to \<^verbatim>\<open>s\<close> again.  The store is the same afterwards, so every further run does the same.
  With \<^verbatim>\<open>resolve\<close> true the same audit calls \<^verbatim>\<open>os.chmod\<close> not once.
\<close>

theorem C6_link_to_directory_corrected_on_every_run:
  "directories_carry ((\<lambda>x. 493)(LinkObj 2 := 511)) 493
     (DirAt ''d'' None 0 [DirAt ''s'' None 1 [], DirAt ''l'' (Some 2) 1 []])
   \<and> check_permissions
       \<lparr>stat_fails = (\<lambda>p f. False), chmod_fails = (\<lambda>p. False), listdir_fails = (\<lambda>p. False)\<rparr>
       ((\<lambda>x. 493)(LinkObj 2 := 511))
       (Some (DirAt ''d'' None 0 [DirAt ''s'' None 1 [], DirAt ''l'' (Some 2) 1 []]))
       ''/srv/d'' 493 False
     = ((\<lambda>x. 493)(LinkObj 2 := 511),
        [Exists ''/srv/d'', Stat ''/srv/d'' False, Listdir ''/srv/d'',
         Isdir ''/srv/d/s'', Isdir ''/srv/d/l'',
         Stat ''/srv/d/s'' False, Listdir ''/srv/d/s'',
         Stat ''/srv/d/l'' False, Chmod ''/srv/d/l'' 493, Listdir ''/srv/d/l''],
        None)
   \<and> check_permissions
       \<lparr>stat_fails = (\<lambda>p f. False), chmod_fails = (\<lambda>p. False), listdir_fails = (\<lambda>p. False)\<rparr>
       ((\<lambda>x. 493)(LinkObj 2 := 511))
       (Some (DirAt ''d'' None 0 [DirAt ''s'' None 1 [], DirAt ''l'' (Some 2) 1 []]))
       ''/srv/d'' 493 True
     = ((\<lambda>x. 493)(LinkObj 2 := 511),
        [Exists ''/srv/d'', Stat ''/srv/d'' True, Listdir ''/srv/d'',
         Isdir ''/srv/d/s'', Isdir ''/srv/d/l'',
         Stat ''/srv/d/s'' True, Listdir ''/srv/d/s'',
         Stat ''/srv/d/l'' True, Listdir ''/srv/d/l''],
        None)"
  by (simp add: check_permissions_def check_and_correct_def os_stat_def os_chmod_def
      os_path_isdir_def os_path_join_def startswith_def fun_eq_iff)


section \<open>Properties of the directory tree renderer\<close>

subsection \<open>Which entry has the last word on a key of the mapping\<close>

lemma fold_keeps_key:
  assumes "\<And>x cur. x \<in> set xs \<Longrightarrow> map_of (f x cur) k = map_of cur k"
  shows "map_of (fold f xs cur) k = map_of cur k"
  using assms by (induction xs arbitrary: cur) simp_all

lemma untouched_key:
  "k \<notin> keys_written_by ex h cs \<Longrightarrow>
     map_of (build_dict_structure ex h cs cur p) k = map_of cur k"
  "k \<notin> keys_written ex h item \<Longrightarrow>
     map_of (build_dict_item ex h p item cur) k = map_of cur k"
proof (induction ex h cs cur p and ex h p item cur
    rule: build_dict_structure_build_dict_item.induct)
  case (1 ex h cs cur p)
  have "map_of (fold (build_dict_item ex h p) (sort_key name cs) cur) k = map_of cur k"
  proof (rule fold_keeps_key)
    fix x cur'
    assume x: "x \<in> set (sort_key name cs)"
    then have "k \<notin> keys_written ex h x"
      using "1.prems" by (auto simp: keys_written_by_def)
    with "1.IH"[OF x] show "map_of (build_dict_item ex h p x cur') k = map_of cur' k"
      by simp
  qed
  then show ?case by simp
next
  case (2 ex h p item cur)
  show ?case
  proof (cases "dict_skips ex h (name item)")
    case True
    then show ?thesis by simp
  next
    case False
    show ?thesis
    proof (cases item)
      case (File n m)
      then show ?thesis
        using False "2.prems" by (auto simp: update_conv' Let_def)
    next
      case (Dir n m dcs)
      show ?thesis
      proof (cases "path_exists dcs ''__init__.py''")
        case True
        then show ?thesis
          using False Dir "2.prems" by (auto simp: update_conv' Let_def)
      next
        case plain: False
        have "k \<notin> keys_written_by ex h dcs"
          using False Dir "2.prems" plain by (simp add: keys_written_by_def)
        from "2.IH"(2)[OF False Dir plain this] show ?thesis
          using False Dir plain by simp
      qed
    qed
  qed
qed

lemma build_at_position:
  assumes "sort_key name cs = before @ x # after"
  shows "build_dict_structure ex h cs cur p
           = fold (build_dict_item ex h p) after
               (build_dict_item ex h p x (fold (build_dict_item ex h p) before cur))"
  using assms by simp

lemma last_writer:
  assumes "sort_key name cs = before @ x # after"
      and "k \<notin> keys_written_by ex h after"
  shows "map_of (build_dict_structure ex h cs cur p) k
           = map_of (build_dict_item ex h p x (fold (build_dict_item ex h p) before cur)) k"
proof -
  have "map_of (fold (build_dict_item ex h p) after c) k = map_of c k" for c
  proof (rule fold_keeps_key)
    fix y cur'
    assume "y \<in> set after"
    then have "k \<notin> keys_written ex h y"
      using assms(2) by (auto simp: keys_written_by_def)
    then show "map_of (build_dict_item ex h p y cur') k = map_of cur' k"
      by (rule untouched_key(2))
  qed
  then show ?thesis
    unfolding build_at_position[OF assms(1)] .
qed

lemma package_entry:
  assumes "sort_key name cs = before @ Dir dn dm dcs # after"
      and "\<not> dict_skips ex h dn" and "path_exists dcs ''__init__.py''"
      and "dn \<notin> keys_written_by ex h after"
  shows "map_of (build_dict_structure ex h cs cur p) dn
           = Some (Dict (build_dict_structure ex h dcs [] (p @ dn @ ''.'')))"
  unfolding last_writer[OF assms(1,4)] using assms(2,3)
  by (simp add: update_conv' Let_def)

lemma file_entry:
  assumes "sort_key name cs = before @ File fn fm # after"
      and "\<not> dict_skips ex h fn" and "path_suffix fn = ''.py''"
      and "path_stem fn \<notin> keys_written_by ex h after"
  shows "map_of (build_dict_structure ex h cs cur p) (path_stem fn)
           = Some (Str (p @ path_stem fn))"
  unfolding last_writer[OF assms(1,4)] using assms(2,3)
  by (simp add: update_conv' Let_def)

lemma plain_directory_entry:
  assumes "sort_key name cs = before @ Dir dn dm dcs # after"
      and "\<not> dict_skips ex h dn" and "\<not> path_exists dcs ''__init__.py''"
      and "k \<notin> keys_written_by ex h after"
  shows "map_of (build_dict_structure ex h cs cur p) k
           = map_of (build_dict_structure ex h dcs (fold (build_dict_item ex h p) before cur)
                       (p @ dn @ ''.'')) k"
  unfolding last_writer[OF assms(1,4)] using assms(2,3) by simp

lemma package_step:
  assumes "sort_key name cs = before @ Dir dn dm dcs # after"
      and "\<not> dict_skips ex h dn" and "path_exists dcs ''__init__.py''"
  shows "build_dict_structure ex h cs cur p
           = fold (build_dict_item ex h p) after
               (AList.update dn (Dict (build_dict_structure ex h dcs [] (p @ dn @ ''.'')))
                  (fold (build_dict_item ex h p) before cur))"
  unfolding build_at_position[OF assms(1)] using assms(2,3) by (simp add: Let_def)

lemma plain_directory_step:
  assumes "sort_key name cs = before @ Dir dn dm dcs # after"
      and "\<not> dict_skips ex h dn" and "\<not> path_exists dcs ''__init__.py''"
  shows "build_dict_structure ex h cs cur p
           = fold (build_dict_item ex h p) after
               (build_dict_structure ex h dcs (fold (build_dict_item ex h p) before cur)
                  (p @ dn @ ''.''))"
  unfolding build_at_position[OF assms(1)] using assms(2,3) by simp

lemma mapping_at_entry_point:
  assumes "output_format = ''dict'' \<or> output_format = ''both''"
  shows "\<exists>md. generate_directory_tree (Dir rn rm cs) excluded hid output_format formatter
           = Inr (md, Some (if path_exists cs ''__init__.py''
                            then [(rn, Dict (build_dict_structure
                                     (case excluded of None \<Rightarrow> default_excluded | Some e \<Rightarrow> e)
                                     hid cs [] (rn @ ''.'')))]
                            else build_dict_structure
                                   (case excluded of None \<Rightarrow> default_excluded | Some e \<Rightarrow> e)
                                   hid cs [] ''''))"
  using assms by (auto simp: generate_directory_tree_def Let_def)

text \<open>
  Claim C1.  The claim says that every subdirectory of the root that holds the marker file
  has its name as a key of the mapping output, with a nested mapping whose paths start with
  the package name, and that the source files of every other subdirectory are keys of the
  root-level mapping with the directory's name as prefix.  Three inputs show that this does
  not hold as it stands:
  \<^item> a root that is itself a package puts everything under the root's name and starts every
    path with it, so the mapping output has no key \<^verbatim>\<open>pkg\<close> and the path is
    \<^verbatim>\<open>root.pkg.m\<close>;
  \<^item> a source file \<^verbatim>\<open>pkg.py\<close> beside the package \<^verbatim>\<open>pkg\<close> comes later in the sorted listing
    and assigns the key \<^verbatim>\<open>pkg\<close> again, to a path;
  \<^item> a source file \<^verbatim>\<open>m.py\<close> beside the plain directory \<^verbatim>\<open>aaa\<close> with \<^verbatim>\<open>aaa/m.py\<close> comes
    later and assigns the key \<^verbatim>\<open>m\<close> again, so the path is \<^verbatim>\<open>m\<close> and not \<^verbatim>\<open>aaa.m\<close>.
\<close>

theorem C1_counterexample:
  "generate_directory_tree
     (Dir ''root'' 493 [File ''__init__.py'' 420,
                        Dir ''pkg'' 493 [File ''__init__.py'' 420, File ''m.py'' 420]])
     None True ''dict'' None
   = Inr (None, Some [(''root'', Dict [(''__init__'', Str ''root.__init__''),
                                        (''pkg'', Dict [(''__init__'', Str ''root.pkg.__init__''),
                                                        (''m'', Str ''root.pkg.m'')])])])
   \<and> generate_directory_tree
       (Dir ''root'' 493 [File ''pkg.py'' 420,
                          Dir ''pkg'' 493 [File ''__init__.py'' 420, File ''m.py'' 420]])
       None True ''dict'' None
     = Inr (None, Some [(''pkg'', Str ''pkg'')])
   \<and> generate_directory_tree
       (Dir ''root'' 493 [File ''m.py'' 420, Dir ''aaa'' 493 [File ''m.py'' 420]])
       None True ''dict'' None
     = Inr (None, Some [(''m'', Str ''m'')])"
  by code_simp

text \<open>
  Claim C1, as amended.  Let the mapping pass run over the children \<open>cs\<close> of a directory,
  with any current mapping \<open>cur\<close> and any module prefix \<open>p\<close>; at the entry point \<open>cur\<close> is
  empty and \<open>p\<close> is empty for a root that is not a package, while a root that is a package
  gets the one key of its own name, with the nested mapping that the pass builds with the
  prefix \<^verbatim>\<open>root.\<close> .  Let \<open>dn\<close> be a subdirectory that the pass does not skip, and \<open>fn\<close> a
  source file in \<open>dn\<close> that the pass does not skip by name and whose stem no later entry
  of \<open>dn\<close> assigns again.

  If \<open>dn\<close> holds the marker file, handling \<open>dn\<close> stores under the key \<open>dn\<close> the mapping
  that the pass builds from the empty mapping over the children of \<open>dn\<close> with the prefix
  \<open>p + dn + "."\<close>; that nested mapping has the path \<open>p + dn + "." + stem\<close> under the stem of
  \<open>fn\<close>; and the key \<open>dn\<close> still holds it in the end unless a later entry of the sorted
  listing assigns \<open>dn\<close> again.

  If \<open>dn\<close> does not hold the marker file, handling \<open>dn\<close> is running the pass over the
  children of \<open>dn\<close> on the same current mapping with the prefix \<open>p + dn + "."\<close>: the stem of
  \<open>fn\<close> holds the path \<open>p + dn + "." + stem\<close> in the end unless an entry after \<open>dn\<close>
  assigns it again, and \<open>dn\<close> is a key in the end only if it was one before or some entry
  assigns it as the stem of a source file or as the name of a package.

  What the pass does with a source file that it skips by name is left open here.
\<close>

theorem C1_packages_nest_plain_directories_flatten:
  assumes sub: "sort_key name cs = before @ Dir dn dm dcs # after"
      and vis: "\<not> dict_skips ex hid dn"
      and src: "sort_key name dcs = fbefore @ File fn fm # fafter"
      and py: "path_suffix fn = ''.py''"
      and fvis: "\<not> dict_skips ex hid fn"
      and flast: "path_stem fn \<notin> keys_written_by ex hid fafter"
      and ex: "ex = (case excluded of None \<Rightarrow> default_excluded | Some e \<Rightarrow> e)"
  shows
    "(path_exists dcs ''__init__.py'' \<longrightarrow>
        build_dict_structure ex hid cs cur p
          = fold (build_dict_item ex hid p) after
              (AList.update dn (Dict (build_dict_structure ex hid dcs [] (p @ dn @ ''.'')))
                 (fold (build_dict_item ex hid p) before cur))
        \<and> map_of (build_dict_structure ex hid dcs [] (p @ dn @ ''.'')) (path_stem fn)
            = Some (Str (p @ dn @ ''.'' @ path_stem fn))
        \<and> (dn \<notin> keys_written_by ex hid after \<longrightarrow>
              map_of (build_dict_structure ex hid cs cur p) dn
                = Some (Dict (build_dict_structure ex hid dcs [] (p @ dn @ ''.'')))))
     \<and> (\<not> path_exists dcs ''__init__.py'' \<longrightarrow>
        build_dict_structure ex hid cs cur p
          = fold (build_dict_item ex hid p) after
              (build_dict_structure ex hid dcs (fold (build_dict_item ex hid p) before cur)
                 (p @ dn @ ''.''))
        \<and> (path_stem fn \<notin> keys_written_by ex hid after \<longrightarrow>
              map_of (build_dict_structure ex hid cs cur p) (path_stem fn)
                = Some (Str (p @ dn @ ''.'' @ path_stem fn)))
        \<and> (dn \<notin> keys_written_by ex hid cs \<longrightarrow>
              map_of (build_dict_structure ex hid cs cur p) dn = map_of cur dn))
     \<and> (output_format = ''dict'' \<or> output_format = ''both'' \<longrightarrow>
        (\<exists>md. generate_directory_tree (Dir rn rm cs) excluded hid output_format formatter
           = Inr (md, Some (if path_exists cs ''__init__.py''
                            then [(rn, Dict (build_dict_structure ex hid cs [] (rn @ ''.'')))]
                            else build_dict_structure ex hid cs [] ''''))))"
proof -
  have inner: "map_of (build_dict_structure ex hid dcs c (p @ dn @ ''.'')) (path_stem fn)
                 = Some (Str (p @ dn @ ''.'' @ path_stem fn))" for c
    using file_entry[OF src fvis py flast, of c "p @ dn @ ''.''"] by simp
  have package:
    "build_dict_structure ex hid cs cur p
       = fold (build_dict_item ex hid p) after
           (AList.update dn (Dict (build_dict_structure ex hid dcs [] (p @ dn @ ''.'')))
              (fold (build_dict_item ex hid p) before cur))"
    "dn \<notin> keys_written_by ex hid after \<longrightarrow>
       map_of (build_dict_structure ex hid cs cur p) dn
         = Some (Dict (build_dict_structure ex hid dcs [] (p @ dn @ ''.'')))"
    if "path_exists dcs ''__init__.py''"
    using package_step[OF sub vis that] package_entry[OF sub vis that] by auto
  have plain:
    "build_dict_structure ex hid cs cur p
       = fold (build_dict_item ex hid p) after
           (build_dict_structure ex hid dcs (fold (build_dict_item ex hid p) before cur)
              (p @ dn @ ''.''))"
    "path_stem fn \<notin> keys_written_by ex hid after \<longrightarrow>
       map_of (build_dict_structure ex hid cs cur p) (path_stem fn)
         = Some (Str (p @ dn @ ''.'' @ path_stem fn))"
    if "\<not> path_exists dcs ''__init__.py''"
    using plain_directory_step[OF sub vis that] plain_directory_entry[OF sub vis that] inner
    by auto
  have nokey: "map_of (build_dict_structure ex hid cs cur p) dn = map_of cur dn"
    if "dn \<notin> keys_written_by ex hid cs"
    using untouched_key(1)[OF that] .
  have entry: "\<exists>md. generate_directory_tree (Dir rn rm cs) excluded hid output_format formatter
           = Inr (md, Some (if path_exists cs ''__init__.py''
                            then [(rn, Dict (build_dict_structure ex hid cs [] (rn @ ''.'')))]
                            else build_dict_structure ex hid cs [] ''''))"
    if "output_format = ''dict'' \<or> output_format = ''both''"
    using mapping_at_entry_point[OF that] unfolding ex .
  show ?thesis
    using inner package plain nokey entry by blast
qed

text \<open>
  The spec's two examples at a root that is not a package, and the package example once
  more one level down, below a root that is a package (prefix \<^verbatim>\<open>root.\<close>).
\<close>

theorem C1_packages_nest_plain_directories_flatten_witness:
  "sort_key name [File ''m.py'' 420, File ''__init__.py'' 420]
     = [File ''__init__.py'' 420] @ File ''m.py'' 420 # []
   \<and> sort_key name [Dir ''pkg'' 493 [File ''m.py'' 420, File ''__init__.py'' 420],
                     File ''__init__.py'' 420]
     = [File ''__init__.py'' 420]
         @ Dir ''pkg'' 493 [File ''m.py'' 420, File ''__init__.py'' 420] # []
   \<and> path_suffix ''m.py'' = ''.py'' \<and> path_stem ''m.py'' = ''m''
   \<and> \<not> dict_skips default_excluded True ''pkg'' \<and> \<not> dict_skips default_excluded True ''plain''
   \<and> \<not> dict_skips default_excluded True ''m.py''
   \<and> generate_directory_tree
         (Dir ''root'' 493 [Dir ''pkg'' 493 [File ''m.py'' 420, File ''__init__.py'' 420]])
         None True ''dict'' None
       = Inr (None, Some [(''pkg'', Dict [(''__init__'', Str ''pkg.__init__''),
                                          (''m'', Str ''pkg.m'')])])
   \<and> generate_directory_tree
         (Dir ''root'' 493 [Dir ''plain'' 493 [File ''m.py'' 420]]) None True ''dict'' None
       = Inr (None, Some [(''m'', Str ''plain.m'')])
   \<and> map_of (build_dict_structure default_excluded True
               [Dir ''pkg'' 493 [File ''m.py'' 420, File ''__init__.py'' 420]] [] '''') ''pkg''
       = Some (Dict (build_dict_structure default_excluded True
                       [File ''m.py'' 420, File ''__init__.py'' 420] [] ''pkg.''))
   \<and> map_of (build_dict_structure default_excluded True
               [File ''m.py'' 420, File ''__init__.py'' 420] [] ''pkg.'') ''m''
       = Some (Str ''pkg.m'')
   \<and> map_of (build_dict_structure default_excluded True
               [Dir ''plain'' 493 [File ''m.py'' 420]] [] '''') ''m''
       = Some (Str ''plain.m'')
   \<and> map_of (build_dict_structure default_excluded True
               [Dir ''plain'' 493 [File ''m.py'' 420]] [] '''') ''plain''
       = None
   \<and> map_of (build_dict_structure default_excluded True
               [Dir ''pkg'' 493 [File ''m.py'' 420, File ''__init__.py'' 420],
                File ''__init__.py'' 420] [] ''root.'') ''pkg''
       = Some (Dict (build_dict_structure default_excluded True
                       [File ''m.py'' 420, File ''__init__.py'' 420] [] ''root.pkg.''))
   \<and> map_of (build_dict_structure default_excluded True
               [File ''m.py'' 420, File ''__init__.py'' 420] [] ''root.pkg.'') ''m''
       = Some (Str ''root.pkg.m'')"
proof -
  let ?pkg = "[File ''m.py'' 420, File ''__init__.py'' 420]"
  let ?proot = "[Dir ''pkg'' 493 ?pkg, File ''__init__.py'' 420]"
  have ex: "default_excluded = (case None of None \<Rightarrow> default_excluded | Some e \<Rightarrow> e)"
    by simp
  have marker1: "path_exists ?pkg ''__init__.py''"
    and marker2: "\<not> path_exists [File ''m.py'' 420] ''__init__.py''"
    by (simp_all add: path_exists_def)
  have sub1: "sort_key name [Dir ''pkg'' 493 ?pkg] = [] @ Dir ''pkg'' 493 ?pkg # []"
    and sub2: "sort_key name [Dir ''plain'' 493 [File ''m.py'' 420]]
                 = [] @ Dir ''plain'' 493 [File ''m.py'' 420] # []"
    and src2: "sort_key name [File ''m.py'' 420] = [] @ File ''m.py'' 420 # []"
    by simp_all
  have src1: "sort_key name ?pkg = [File ''__init__.py'' 420] @ File ''m.py'' 420 # []"
    by code_simp
  have sub3: "sort_key name ?proot = [File ''__init__.py'' 420] @ Dir ''pkg'' 493 ?pkg # []"
    by code_simp
  have py: "path_suffix ''m.py'' = ''.py''" and stem: "path_stem ''m.py'' = ''m''"
    by (simp_all add: path_suffix_def path_stem_def)
  have vis1: "\<not> dict_skips default_excluded True ''pkg''"
    and vis2: "\<not> dict_skips default_excluded True ''plain''"
    and fvis: "\<not> dict_skips default_excluded True ''m.py''"
    by (simp_all add: dict_skips_def default_excluded_def startswith_def)
  have none: "k \<notin> keys_written_by default_excluded True []" for k
    by (simp add: keys_written_by_def)
  have plain_key: "''plain'' \<notin> keys_written_by default_excluded True
                                  [Dir ''plain'' 493 [File ''m.py'' 420]]"
    using vis2 fvis marker2 py stem by (simp add: keys_written_by_def)
  have out1: "generate_directory_tree (Dir ''root'' 493 [Dir ''pkg'' 493 ?pkg])
                None True ''dict'' None
              = Inr (None, Some [(''pkg'', Dict [(''__init__'', Str ''pkg.__init__''),
                                                 (''m'', Str ''pkg.m'')])])"
    by code_simp
  have out2: "generate_directory_tree (Dir ''root'' 493 [Dir ''plain'' 493 [File ''m.py'' 420]])
                None True ''dict'' None
              = Inr (None, Some [(''m'', Str ''plain.m'')])"
    by code_simp
  from C1_packages_nest_plain_directories_flatten
         [OF sub1 vis1 src1 py fvis none ex, where cur="[]" and p="''''"
            and output_format="''dict''" and rn="''root''" and rm=493 and formatter=None] marker1 none stem
  have nested: "map_of (build_dict_structure default_excluded True [Dir ''pkg'' 493 ?pkg] [] '''')
                  ''pkg''
                = Some (Dict (build_dict_structure default_excluded True ?pkg [] ''pkg.''))"
    "map_of (build_dict_structure default_excluded True ?pkg [] ''pkg.'') ''m''
       = Some (Str ''pkg.m'')"
    by (auto simp del: build_dict_structure.simps build_dict_item.simps)
  from C1_packages_nest_plain_directories_flatten
         [OF sub2 vis2 src2 py fvis none ex, where cur="[]" and p="''''"
            and output_format="''dict''" and rn="''root''" and rm=493 and formatter=None] marker2 none stem plain_key
  have flat: "map_of (build_dict_structure default_excluded True
                        [Dir ''plain'' 493 [File ''m.py'' 420]] [] '''') ''m''
                = Some (Str ''plain.m'')"
    "map_of (build_dict_structure default_excluded True
               [Dir ''plain'' 493 [File ''m.py'' 420]] [] '''') ''plain'' = None"
    by (auto simp del: build_dict_structure.simps build_dict_item.simps)
  from C1_packages_nest_plain_directories_flatten
         [OF sub3 vis1 src1 py fvis none ex, where cur="[]" and p="''root.''"
            and output_format="''dict''" and rn="''root''" and rm=493 and formatter=None] marker1 none stem
  have deep: "map_of (build_dict_structure default_excluded True ?proot [] ''root.'') ''pkg''
                = Some (Dict (build_dict_structure default_excluded True ?pkg [] ''root.pkg.''))"
    "map_of (build_dict_structure default_excluded True ?pkg [] ''root.pkg.'') ''m''
       = Some (Str ''root.pkg.m'')"
    by (auto simp del: build_dict_structure.simps build_dict_item.simps)
  show ?thesis
    using src1 sub3 py stem vis1 vis2 fvis out1 out2 nested flat deep by blast
qed

text \<open>
  Claim C2.  The claim says that a file without the source suffix is removed before the
  enumeration, so that the last item that is rendered always has the corner connector.  In
  the source only the skipped directories are removed before the enumeration; a file
  without the suffix keeps its place in \<^verbatim>\<open>items\<close> and is dropped inside the loop.  With the
  files \<^verbatim>\<open>a.py\<close> and \<^verbatim>\<open>b.txt\<close> in a directory, \<^verbatim>\<open>a.py\<close> is the only and last item
  rendered and has the tee connector, at the root and in a nested directory alike.
\<close>

theorem C2_last_rendered_item_gets_tee:
  "generate_directory_tree (Dir ''proj'' 493 [File ''a.py'' 420, File ''b.txt'' 420])
     None True ''markdown'' None
   = Inr (Some (join_lines [''# Project Structure: proj'', ''```'', ''proj/'',
                            tee @ ''a.py'',
                            ''```'']),
          Some [])
   \<and> generate_directory_tree
       (Dir ''proj'' 493 [Dir ''src'' 493 [File ''a.py'' 420, File ''b.txt'' 420]])
       None True ''markdown'' None
   = Inr (Some (join_lines [''# Project Structure: proj'', ''```'', ''proj/'',
                            corner @ ''src/'',
                            blank @ tee @ ''a.py'',
                            ''```'']),
          Some [])"
  by code_simp

text \<open>
  Claim C8.  The claim says that both passes skip the same entries, directories only.  The
  text pass tests \<^verbatim>\<open>item.is_dir()\<close> before the name; the mapping pass tests the name alone,
  so it also skips a plain file whose name is excluded or hidden.  The hidden source file
  \<^verbatim>\<open>.m.py\<close> is rendered in the text and missing from the mapping; with
  \<^verbatim>\<open>exclude_hidden\<close> off the mapping has it.
\<close>

theorem C8_mapping_pass_skips_hidden_file:
  "\<not> markdown_skips default_excluded True (File ''.m.py'' 420)
   \<and> dict_skips default_excluded True (name (File ''.m.py'' 420))
   \<and> generate_directory_tree (Dir ''proj'' 493 [File ''.m.py'' 420]) None True ''both'' None
     = Inr (Some (join_lines [''# Project Structure: proj'', ''```'', ''proj/'',
                              corner @ ''.m.py'',
                              ''```'']),
            Some [])
   \<and> generate_directory_tree (Dir ''proj'' 493 [File ''.m.py'' 420]) None False ''dict'' None
     = Inr (None, Some [(''.m'', Str ''.m'')])"
  by code_simp

text \<open>
  Claim C9.  The claim says that the element of the result pair that was not requested is
  absent.  The text element is: with only the mapping requested it is \<^verbatim>\<open>None\<close>.  The mapping
  element is not: \<^verbatim>\<open>dict_output\<close> starts as \<^verbatim>\<open>{}\<close> and is returned as it is, so with only
  the text requested the second element is the empty mapping, for every directory, where
  the docstring of the source promises \<^verbatim>\<open>None\<close>.
\<close>

theorem C9_mapping_is_empty_not_absent:
  "(\<exists>text. generate_directory_tree (Dir nm m cs) excluded exclude_hidden ''markdown'' formatter
             = Inr (Some text, Some []))
   \<and> (\<exists>D. generate_directory_tree (Dir nm m cs) excluded exclude_hidden ''dict'' formatter
             = Inr (None, Some D))"
  by (simp add: generate_directory_tree_def Let_def)

end
